theory Spec2Isabelle
  imports Main
begin

section \<open>The ECMAScript Date operations used by the agenda\<close>

text \<open>
  The expander (\<^verbatim>\<open>components/CalendarView.tsx\<close>) and the service worker
  (\<^verbatim>\<open>sw.js\<close>) work on JavaScript \<^verbatim>\<open>Date\<close> objects in local time. A Date holds a
  time value: a count of milliseconds since 1 January 1970 UTC, or NaN for an Invalid
  Date. The model keeps the time value as \<open>int option\<close> (\<open>None\<close> is NaN) and follows the
  abstract operations of the ECMAScript specification (Day, TimeWithinDay, DayFromYear,
  YearFromTime, MonthFromTime, DateFromTime, MakeTime, MakeDay, MakeDate, TimeClip,
  LocalTime, UTC). Every number the code passes to a Date setter is an integer.
\<close>

type_synonym jsdate = "int option"

definition msPerSecond :: int where "msPerSecond = 1000"
definition msPerMinute :: int where "msPerMinute = 60000"
definition msPerHour :: int where "msPerHour = 3600000"
definition msPerDay :: int where "msPerDay = 86400000"

definition Day :: "int \<Rightarrow> int" where
  "Day t = t div msPerDay"

definition TimeWithinDay :: "int \<Rightarrow> int" where
  "TimeWithinDay t = t mod msPerDay"

definition DaysInYear :: "int \<Rightarrow> int" where
  "DaysInYear y =
     (if y mod 4 \<noteq> 0 then 365
      else if y mod 100 \<noteq> 0 then 366
      else if y mod 400 \<noteq> 0 then 365
      else 366)"

definition DayFromYear :: "int \<Rightarrow> int" where
  "DayFromYear y =
     365 * (y - 1970) + (y - 1969) div 4 - (y - 1901) div 100 + (y - 1601) div 400"

text \<open>
  YearFromTime is the largest year whose first day is not after the day of \<open>t\<close>. The
  mean year of 146097/400 days gives an estimate that is off by at most one, and the
  two comparisons correct it (lemma \<open>YearFromDay_bounds\<close> below).
\<close>

definition YearFromDay :: "int \<Rightarrow> int" where
  "YearFromDay n =
     (let y0 = 1970 + (400 * n) div 146097
      in if n < DayFromYear y0 then y0 - 1
         else if DayFromYear (y0 + 1) \<le> n then y0 + 1
         else y0)"

definition YearFromTime :: "int \<Rightarrow> int" where
  "YearFromTime t = YearFromDay (Day t)"

definition InLeapYear :: "int \<Rightarrow> int" where
  "InLeapYear t = (if DaysInYear (YearFromTime t) = 366 then 1 else 0)"

definition DayWithinYear :: "int \<Rightarrow> int" where
  "DayWithinYear t = Day t - DayFromYear (YearFromTime t)"

text \<open>The number of days of a year before its month \<open>m\<close> (0 is January).\<close>

definition daysBeforeMonth :: "int \<Rightarrow> int \<Rightarrow> int" where
  "daysBeforeMonth m leap =
     (if m = 0 then 0
      else if m = 1 then 31
      else if m = 2 then 59 + leap
      else if m = 3 then 90 + leap
      else if m = 4 then 120 + leap
      else if m = 5 then 151 + leap
      else if m = 6 then 181 + leap
      else if m = 7 then 212 + leap
      else if m = 8 then 243 + leap
      else if m = 9 then 273 + leap
      else if m = 10 then 304 + leap
      else 334 + leap)"

definition MonthFromTime :: "int \<Rightarrow> int" where
  "MonthFromTime t =
     (let d = DayWithinYear t; l = InLeapYear t
      in if d < 31 then 0
         else if d < 59 + l then 1
         else if d < 90 + l then 2
         else if d < 120 + l then 3
         else if d < 151 + l then 4
         else if d < 181 + l then 5
         else if d < 212 + l then 6
         else if d < 243 + l then 7
         else if d < 273 + l then 8
         else if d < 304 + l then 9
         else if d < 334 + l then 10
         else 11)"

definition DateFromTime :: "int \<Rightarrow> int" where
  "DateFromTime t =
     DayWithinYear t - daysBeforeMonth (MonthFromTime t) (InLeapYear t) + 1"

definition HourFromTime :: "int \<Rightarrow> int" where
  "HourFromTime t = (t div msPerHour) mod 24"

definition MinFromTime :: "int \<Rightarrow> int" where
  "MinFromTime t = (t div msPerMinute) mod 60"

definition SecFromTime :: "int \<Rightarrow> int" where
  "SecFromTime t = (t div msPerSecond) mod 60"

definition msFromTime :: "int \<Rightarrow> int" where
  "msFromTime t = t mod msPerSecond"

definition MakeTime :: "int \<Rightarrow> int \<Rightarrow> int \<Rightarrow> int \<Rightarrow> int" where
  "MakeTime hour minute sec ms =
     hour * msPerHour + minute * msPerMinute + sec * msPerSecond + ms"

definition MakeDay :: "int \<Rightarrow> int \<Rightarrow> int \<Rightarrow> int" where
  "MakeDay year month dt =
     (let ym = year + month div 12; mn = month mod 12
      in DayFromYear ym
         + daysBeforeMonth mn (if DaysInYear ym = 366 then 1 else 0)
         + dt - 1)"

definition MakeDate :: "int \<Rightarrow> int \<Rightarrow> int" where
  "MakeDate day time = day * msPerDay + time"

definition TimeClip :: "int \<Rightarrow> jsdate" where
  "TimeClip t = (if \<bar>t\<bar> > 8640000000000000 then None else Some t)"

subsection \<open>The host: its time zone and its date parser\<close>

text \<open>
  The time zone of the host and what its engine reads in a string outside the date-time
  format of ECMAScript are no code of the agenda; they are parameters of the model. A
  zone is its offset from UTC at the start of time, in milliseconds, and the changes of
  the offset in ascending order, each with the UTC instant from which it holds.
\<close>

record Host =
  standardOffset :: int
  offsetChanges :: "(int \<times> int) list"
  otherFormats :: "string \<Rightarrow> int option"

text \<open>The offset in force at the UTC instant \<open>t\<close>.\<close>

fun offsetAt :: "int \<Rightarrow> (int \<times> int) list \<Rightarrow> int \<Rightarrow> int" where
  "offsetAt off [] t = off"
| "offsetAt off ((u, off') # rest) t = (if u \<le> t then offsetAt off' rest t else off)"

text \<open>
  The offset for a local time value \<open>t\<close>. A local time that the clocks skip at a change
  of the offset, or show twice, is read with the offset before the change, as
  ECMAScript rules: a change counts from the first local time that lies after it under
  both offsets.
\<close>

fun offsetAtLocal :: "int \<Rightarrow> (int \<times> int) list \<Rightarrow> int \<Rightarrow> int" where
  "offsetAtLocal off [] t = off"
| "offsetAtLocal off ((u, off') # rest) t =
     (if u + max off off' \<le> t then offsetAtLocal off' rest t else off)"

definition LocalTZA :: "Host \<Rightarrow> int \<Rightarrow> bool \<Rightarrow> int" where
  "LocalTZA h t isUTC =
     (if isUTC then offsetAt (standardOffset h) (offsetChanges h) t
      else offsetAtLocal (standardOffset h) (offsetChanges h) t)"

definition LocalTime :: "Host \<Rightarrow> int \<Rightarrow> int" where
  "LocalTime h t = t + LocalTZA h t True"

definition UTC :: "Host \<Rightarrow> int \<Rightarrow> int" where
  "UTC h t = t - LocalTZA h t False"

subsection \<open>Getters and setters\<close>

text \<open>
  The code calls them on valid dates only (the loop condition of the expander and the
  \<^verbatim>\<open>isNaN\<close> test of the service worker come first), so they take the time value of a
  valid date. A getter reads a field of the local time. A setter replaces a field of
  the local time, turns the result into UTC and returns the new time value, which
  TimeClip may turn into NaN.
\<close>

definition getFullYear :: "Host \<Rightarrow> int \<Rightarrow> int" where
  "getFullYear h t = YearFromTime (LocalTime h t)"

definition getMonth :: "Host \<Rightarrow> int \<Rightarrow> int" where
  "getMonth h t = MonthFromTime (LocalTime h t)"

definition getDate :: "Host \<Rightarrow> int \<Rightarrow> int" where
  "getDate h t = DateFromTime (LocalTime h t)"

definition getHours :: "Host \<Rightarrow> int \<Rightarrow> int" where
  "getHours h t = HourFromTime (LocalTime h t)"

definition getMinutes :: "Host \<Rightarrow> int \<Rightarrow> int" where
  "getMinutes h t = MinFromTime (LocalTime h t)"

definition setDate :: "Host \<Rightarrow> int \<Rightarrow> int \<Rightarrow> jsdate" where
  "setDate h t dt =
     (let lt = LocalTime h t
      in TimeClip (UTC h (MakeDate (MakeDay (YearFromTime lt) (MonthFromTime lt) dt)
                            (TimeWithinDay lt))))"

definition setMonth :: "Host \<Rightarrow> int \<Rightarrow> int \<Rightarrow> jsdate" where
  "setMonth h t m =
     (let lt = LocalTime h t
      in TimeClip (UTC h (MakeDate (MakeDay (YearFromTime lt) m (DateFromTime lt))
                            (TimeWithinDay lt))))"

definition setFullYear :: "Host \<Rightarrow> int \<Rightarrow> int \<Rightarrow> jsdate" where
  "setFullYear h t y =
     (let lt = LocalTime h t
      in TimeClip (UTC h (MakeDate (MakeDay y (MonthFromTime lt) (DateFromTime lt))
                            (TimeWithinDay lt))))"

definition setHours :: "Host \<Rightarrow> int \<Rightarrow> int \<Rightarrow> jsdate" where
  "setHours h t hour =
     (let lt = LocalTime h t
      in TimeClip (UTC h (MakeDate (Day lt)
                            (MakeTime hour (MinFromTime lt) (SecFromTime lt) (msFromTime lt)))))"

definition setMinutes :: "Host \<Rightarrow> int \<Rightarrow> int \<Rightarrow> jsdate" where
  "setMinutes h t m =
     (let lt = LocalTime h t
      in TimeClip (UTC h (MakeDate (Day lt)
                            (MakeTime (HourFromTime lt) m (SecFromTime lt) (msFromTime lt)))))"

text \<open>
  Relational comparison of two Dates compares their time values; a comparison with NaN
  is false.
\<close>

definition date_le :: "jsdate \<Rightarrow> jsdate \<Rightarrow> bool" where
  "date_le a b = (case (a, b) of (Some x, Some y) \<Rightarrow> x \<le> y | _ \<Rightarrow> False)"

definition date_ge :: "jsdate \<Rightarrow> jsdate \<Rightarrow> bool" where
  "date_ge a b = (case (a, b) of (Some x, Some y) \<Rightarrow> x \<ge> y | _ \<Rightarrow> False)"

subsection \<open>Numbers and strings\<close>

definition decimalDigits :: string where
  "decimalDigits = ''0123456789''"

definition digitChar :: "int \<Rightarrow> char" where
  "digitChar d = decimalDigits ! nat d"

definition digitVal :: "char \<Rightarrow> int option" where
  "digitVal c = map_of (zip decimalDigits [0, 1, 2, 3, 4, 5, 6, 7, 8, 9]) c"

text \<open>\<^verbatim>\<open>String(n)\<close> for an integer \<open>n\<close> (below the 21 digits where JavaScript turns to
  exponent notation).\<close>

fun showNat :: "nat \<Rightarrow> string" where
  "showNat n = (if n < 10 then [digitChar (int n)]
                else showNat (n div 10) @ [digitChar (int (n mod 10))])"

declare showNat.simps [simp del]

definition showInt :: "int \<Rightarrow> string" where
  "showInt i = (if i < 0 then CHR ''-'' # showNat (nat (- i)) else showNat (nat i))"

text \<open>\<^verbatim>\<open>s.padStart(2, '0')\<close>\<close>

definition padStart2 :: "string \<Rightarrow> string" where
  "padStart2 s = replicate (2 - length s) CHR ''0'' @ s"

text \<open>A run of decimal digits read as a number; \<open>None\<close> when a character is no digit.\<close>

fun digitsVal :: "int \<Rightarrow> string \<Rightarrow> int option" where
  "digitsVal acc [] = Some acc"
| "digitsVal acc (c # cs) =
     (case digitVal c of None \<Rightarrow> None | Some d \<Rightarrow> digitsVal (10 * acc + d) cs)"

subsection \<open>Reading a date from a string\<close>

text \<open>
  \<^verbatim>\<open>new Date(s)\<close> first reads \<open>s\<close> in the Date Time String Format of ECMAScript,
  \<^verbatim>\<open>YYYY-MM-DDTHH:mm:ss.sssZ\<close>. The date is \<^verbatim>\<open>YYYY\<close>, \<^verbatim>\<open>YYYY-MM\<close> or
  \<^verbatim>\<open>YYYY-MM-DD\<close>, where the year may be an expanded year of a sign and six digits
  (\<^verbatim>\<open>-000000\<close> is no year). It stands alone or is followed by \<^verbatim>\<open>T\<close> and a time
  \<^verbatim>\<open>HH:mm\<close>, \<^verbatim>\<open>HH:mm:ss\<close> or \<^verbatim>\<open>HH:mm:ss.sss\<close>, and the time by nothing, by
  \<^verbatim>\<open>Z\<close> or by an offset \<^verbatim>\<open>+HH:mm\<close> or \<^verbatim>\<open>-HH:mm\<close>.
\<close>

text \<open>A field of exactly \<open>n\<close> decimal digits at the head of \<open>s\<close>, and the rest of \<open>s\<close>.\<close>

definition fixedDigits :: "nat \<Rightarrow> string \<Rightarrow> (int \<times> string) option" where
  "fixedDigits n s =
     (if n \<le> length s
      then (case digitsVal 0 (take n s) of None \<Rightarrow> None | Some v \<Rightarrow> Some (v, drop n s))
      else None)"

text \<open>The rest of \<open>s\<close> after the character \<open>c\<close> at its head.\<close>

definition expect :: "char \<Rightarrow> string \<Rightarrow> string option" where
  "expect c s = (case s of [] \<Rightarrow> None | x # r \<Rightarrow> if x = c then Some r else None)"

definition yearField :: "string \<Rightarrow> (int \<times> string) option" where
  "yearField s =
     (case expect CHR ''+'' s of
        Some r \<Rightarrow> fixedDigits 6 r
      | None \<Rightarrow>
          (case expect CHR ''-'' s of
             Some r \<Rightarrow>
               (case fixedDigits 6 r of
                  None \<Rightarrow> None
                | Some (y, r') \<Rightarrow> if y = 0 then None else Some (- y, r'))
           | None \<Rightarrow> fixedDigits 4 s))"

text \<open>A whole string as a date: year, month and day, where an absent month or day
  is 1.\<close>

definition dateFields :: "string \<Rightarrow> (int \<times> int \<times> int) option" where
  "dateFields s =
     (case yearField s of
        None \<Rightarrow> None
      | Some (y, r1) \<Rightarrow>
          if r1 = [] then Some (y, 1, 1)
          else (case Option.bind (expect CHR ''-'' r1) (fixedDigits 2) of
                  None \<Rightarrow> None
                | Some (mo, r2) \<Rightarrow>
                    if r2 = [] then Some (y, mo, 1)
                    else (case Option.bind (expect CHR ''-'' r2) (fixedDigits 2) of
                            None \<Rightarrow> None
                          | Some (d, r3) \<Rightarrow> if r3 = [] then Some (y, mo, d) else None)))"

text \<open>The seconds and milliseconds of a time, when there are any, and the rest.\<close>

definition secondsField :: "string \<Rightarrow> (int \<times> int \<times> string) option" where
  "secondsField s =
     (case expect CHR '':'' s of
        None \<Rightarrow> Some (0, 0, s)
      | Some r1 \<Rightarrow>
          (case fixedDigits 2 r1 of
             None \<Rightarrow> None
           | Some (sec, r2) \<Rightarrow>
               (case expect CHR ''.'' r2 of
                  None \<Rightarrow> Some (sec, 0, r2)
                | Some r3 \<Rightarrow>
                    (case fixedDigits 3 r3 of
                       None \<Rightarrow> None
                     | Some (ms, r4) \<Rightarrow> Some (sec, ms, r4)))))"

text \<open>The end of a date-time string: nothing (\<open>None\<close>, the time is local), or the offset
  from UTC in minutes.\<close>

definition offsetField :: "string \<Rightarrow> int option option" where
  "offsetField s =
     (if s = [] then Some None
      else if s = ''Z'' then Some (Some 0)
      else (case s of
              [] \<Rightarrow> None
            | c # r \<Rightarrow>
                if c = CHR ''+'' \<or> c = CHR ''-'' then
                  (case fixedDigits 2 r of
                     None \<Rightarrow> None
                   | Some (oh, r1) \<Rightarrow>
                       (case Option.bind (expect CHR '':'' r1) (fixedDigits 2) of
                          None \<Rightarrow> None
                        | Some (om, r2) \<Rightarrow>
                            if r2 = [] \<and> oh \<le> 23 \<and> om \<le> 59
                            then Some (Some ((if c = CHR ''+'' then 1 else - 1) * (oh * 60 + om)))
                            else None))
                else None))"

text \<open>A whole string as a time: hour, minute, second, millisecond and offset.\<close>

definition timeFields :: "string \<Rightarrow> (int \<times> int \<times> int \<times> int \<times> int option) option" where
  "timeFields s =
     (case fixedDigits 2 s of
        None \<Rightarrow> None
      | Some (hour, r1) \<Rightarrow>
          (case Option.bind (expect CHR '':'' r1) (fixedDigits 2) of
             None \<Rightarrow> None
           | Some (mi, r2) \<Rightarrow>
               (case secondsField r2 of
                  None \<Rightarrow> None
                | Some (sec, ms, r3) \<Rightarrow>
                    (case offsetField r3 of
                       None \<Rightarrow> None
                     | Some off \<Rightarrow> Some (hour, mi, sec, ms, off)))))"

text \<open>The date is what stands before the first \<^verbatim>\<open>T\<close>, the time what stands after
  it.\<close>

definition isoFields ::
  "string \<Rightarrow> ((int \<times> int \<times> int) \<times> (int \<times> int \<times> int \<times> int \<times> int option) option) option" where
  "isoFields s =
     (case dateFields (takeWhile (\<lambda>c. c \<noteq> CHR ''T'') s) of
        None \<Rightarrow> None
      | Some d \<Rightarrow>
          (case dropWhile (\<lambda>c. c \<noteq> CHR ''T'') s of
             [] \<Rightarrow> Some (d, None)
           | c # r \<Rightarrow> (case timeFields r of None \<Rightarrow> None | Some t \<Rightarrow> Some (d, Some t))))"

definition DaysInMonth :: "int \<Rightarrow> int \<Rightarrow> int" where
  "DaysInMonth y m = MakeDay y (m + 1) 1 - MakeDay y m 1"

text \<open>
  The time value of a string of the format whose fields are in range: the month 01 to
  12, the day 01 to the last day of the month, the hour 00 to 24 with 24:00:00.000 the
  end of the day, minute and second 00 to 59. A date alone is a UTC date; a date with a
  time and no offset is a local time.
\<close>

definition isoTime :: "Host \<Rightarrow> string \<Rightarrow> int option" where
  "isoTime h s =
     (case isoFields s of
        None \<Rightarrow> None
      | Some ((y, mo, d), time) \<Rightarrow>
          if 1 \<le> mo \<and> mo \<le> 12 \<and> 1 \<le> d \<and> d \<le> DaysInMonth y (mo - 1) then
            (case time of
               None \<Rightarrow> Some (MakeDate (MakeDay y (mo - 1) d) 0)
             | Some (hour, mi, sec, ms, off) \<Rightarrow>
                 if hour \<le> 24 \<and> mi \<le> 59 \<and> sec \<le> 59
                    \<and> (if hour = 24 then mi = 0 \<and> sec = 0 \<and> ms = 0 else True)
                 then
                   (let tv = MakeDate (MakeDay y (mo - 1) d) (MakeTime hour mi sec ms)
                    in case off of
                         None \<Rightarrow> Some (UTC h tv)
                       | Some minutes \<Rightarrow> Some (tv - minutes * msPerMinute))
                 else None)
          else None)"

text \<open>
  \<^verbatim>\<open>new Date(s)\<close>. For a string that is not of the format ECMAScript leaves the
  engine free to try formats of its own, and on a string of the format with a field out
  of range the engines differ (one reads a day after the last of its month as a day of
  the next month, another gives an Invalid Date): for these strings the result is what
  the host gives. Every result goes through TimeClip.
\<close>

definition parseDate :: "Host \<Rightarrow> string \<Rightarrow> jsdate" where
  "parseDate h s =
     (case isoTime h s of
        Some v \<Rightarrow> TimeClip v
      | None \<Rightarrow> (case otherFormats h s of None \<Rightarrow> None | Some v \<Rightarrow> TimeClip v))"

section \<open>The data model (types.ts)\<close>

datatype AlertUnit = Minutes | Hours | Days | Weeks | Months | Years

record AppEventAlert =
  alert_id :: string
  alert_value :: int
  alert_unit :: AlertUnit

datatype Frequency = Daily | Weekly | Monthly | Yearly

record EventRepeat =
  frequency :: Frequency
  interval :: int

text \<open>
  The optional fields \<^verbatim>\<open>alerts\<close> and \<^verbatim>\<open>repeat\<close> are options; the optional flags
  \<^verbatim>\<open>isCompleted\<close> and \<^verbatim>\<open>isAllDay\<close> are read for their truth value only, so an absent
  flag is \<open>False\<close>.
\<close>

record AppEvent =
  event_id :: string
  calendarId :: string
  title :: string
  date :: string
  startTime :: string
  description :: string
  alerts :: "AppEventAlert list option"
  isCompleted :: bool
  location :: "string option"
  isAllDay :: bool
  repeat :: "EventRepeat option"

section \<open>The service worker (sw.js)\<close>

subsection \<open>Notifications\<close>

record NotificationData =
  eventId :: string
  snoozeCount :: "int option"

record Notification =
  n_title :: string
  body :: string
  icon :: string
  tag :: string
  data :: NotificationData
  actions :: "(string \<times> string) list"

text \<open>The texts are Portuguese; a letter outside ASCII is written as its UTF-8 bytes.\<close>

definition unitLabels :: "AlertUnit \<Rightarrow> string" where
  "unitLabels u =
     (case u of
        Minutes \<Rightarrow> ''minuto(s)''
      | Hours \<Rightarrow> ''hora(s)''
      | Days \<Rightarrow> ''dia(s)''
      | Weeks \<Rightarrow> ''semana(s)''
      | Months \<Rightarrow> ''m'' @ [CHR 0xC3, CHR 0xAA] @ ''s(es)''
      | Years \<Rightarrow> ''ano(s)'')"

definition alertBody :: "AppEvent \<Rightarrow> AppEventAlert \<Rightarrow> string" where
  "alertBody event alert =
     (if alert_value alert = 0
      then title event @ '' est'' @ [CHR 0xC3, CHR 0xA1] @ '' come'' @ [CHR 0xC3, CHR 0xA7]
           @ ''ando agora ('' @ startTime event @ '').''
      else title event @ '' em '' @ showInt (alert_value alert) @ '' ''
           @ unitLabels (alert_unit alert) @ '' ('' @ [CHR 0xC3, CHR 0xA0] @ ''s ''
           @ startTime event @ '').'')"

definition alertNotification :: "AppEvent \<Rightarrow> AppEventAlert \<Rightarrow> Notification" where
  "alertNotification event alert =
     \<lparr> n_title = ''Agenda: Lembrete'',
       body = alertBody event alert,
       icon = ''/agenda.ico'',
       tag = event_id event @ ''-'' @ alert_id alert,
       data = \<lparr> eventId = event_id event, snoozeCount = Some 0 \<rparr>,
       actions = [(''mark_as_read'', ''Marcar como conclu'' @ [CHR 0xC3, CHR 0xAD] @ ''do''),
                  (''snooze'', ''Adiar (5 min)'')] \<rparr>"

subsection \<open>The due-alert scan of one tick\<close>

text \<open>The \<^verbatim>\<open>switch\<close> on the unit of the alert: the start of the event, moved back by
  the alert's value through the setter of that unit.\<close>

definition notificationTime :: "Host \<Rightarrow> int \<Rightarrow> AppEventAlert \<Rightarrow> jsdate" where
  "notificationTime h eventTime alert =
     (case alert_unit alert of
        Minutes \<Rightarrow> setMinutes h eventTime (getMinutes h eventTime - alert_value alert)
      | Hours \<Rightarrow> setHours h eventTime (getHours h eventTime - alert_value alert)
      | Days \<Rightarrow> setDate h eventTime (getDate h eventTime - alert_value alert)
      | Weeks \<Rightarrow> setDate h eventTime (getDate h eventTime - alert_value alert * 7)
      | Months \<Rightarrow> setMonth h eventTime (getMonth h eventTime - alert_value alert)
      | Years \<Rightarrow> setFullYear h eventTime (getFullYear h eventTime - alert_value alert))"

text \<open>The callback of the inner \<^verbatim>\<open>forEach\<close>: the notifications one alert shows at the
  time \<open>nowTimestamp\<close>. A difference with NaN is NaN, and both comparisons fail.\<close>

definition checkAlert :: "Host \<Rightarrow> int \<Rightarrow> AppEvent \<Rightarrow> int \<Rightarrow> AppEventAlert \<Rightarrow> Notification list" where
  "checkAlert h nowTimestamp event eventTime alert =
     (case notificationTime h eventTime alert of
        None \<Rightarrow> []
      | Some t \<Rightarrow>
          (let timeDifference = nowTimestamp - t
           in if timeDifference \<ge> 0 \<and> timeDifference < 60000
              then [alertNotification event alert]
              else []))"

text \<open>The callback of the outer \<^verbatim>\<open>forEach\<close>: the notifications one event shows.
  Nothing in its \<^verbatim>\<open>try\<close> block throws on an event of the type \<open>AppEvent\<close>.\<close>

definition checkEvent :: "Host \<Rightarrow> int \<Rightarrow> AppEvent \<Rightarrow> Notification list" where
  "checkEvent h nowTimestamp event =
     (case alerts event of
        None \<Rightarrow> []
      | Some as \<Rightarrow>
          if as = [] \<or> isCompleted event then []
          else (case parseDate h (date event @ ''T'' @ startTime event) of
                  None \<Rightarrow> []
                | Some eventTime \<Rightarrow>
                    concat (map (checkAlert h nowTimestamp event eventTime) as)))"

definition checkScan :: "Host \<Rightarrow> int \<Rightarrow> AppEvent list \<Rightarrow> Notification list" where
  "checkScan h nowTimestamp events = concat (map (checkEvent h nowTimestamp) events)"

subsection \<open>The worker's state, its timers and its listeners\<close>

text \<open>
  The two globals of the worker, and what the host keeps for it: the pending timeouts,
  the next timer id (the ids of \<^verbatim>\<open>setTimeout\<close> are integers greater than zero, each
  new one fresh) and the notifications shown so far, in order.
\<close>

datatype TimerCallback = CheckEvents | ShowSnoozed Notification

record Timer =
  timer_id :: nat
  timer_due :: int
  timer_callback :: TimerCallback

record ServiceWorker =
  scheduledEvents :: "AppEvent list"
  notificationCheckTimeout :: "nat option"
  timers :: "Timer list"
  nextTimerId :: nat
  shown :: "Notification list"

definition initialWorker :: ServiceWorker where
  "initialWorker =
     \<lparr> scheduledEvents = [], notificationCheckTimeout = None, timers = [],
       nextTimerId = 1, shown = [] \<rparr>"

definition setTimeout :: "TimerCallback \<Rightarrow> int \<Rightarrow> int \<Rightarrow> ServiceWorker \<Rightarrow> nat \<times> ServiceWorker" where
  "setTimeout cb delay now s =
     (nextTimerId s,
      s\<lparr> timers := timers s @ [\<lparr> timer_id = nextTimerId s, timer_due = now + delay,
                                  timer_callback = cb \<rparr>],
         nextTimerId := Suc (nextTimerId s) \<rparr>)"

definition clearTimeout :: "nat \<Rightarrow> ServiceWorker \<Rightarrow> ServiceWorker" where
  "clearTimeout i s = s\<lparr> timers := filter (\<lambda>t. timer_id t \<noteq> i) (timers s) \<rparr>"

text \<open>\<^verbatim>\<open>checkEventsForNotifications\<close>, run when the host's clock reads \<open>now\<close>.\<close>

definition checkEventsForNotifications :: "Host \<Rightarrow> int \<Rightarrow> ServiceWorker \<Rightarrow> ServiceWorker" where
  "checkEventsForNotifications h now s =
     (let s1 = (case notificationCheckTimeout s of
                  None \<Rightarrow> s
                | Some i \<Rightarrow> if i = 0 then s else clearTimeout i s);
          s2 = s1\<lparr> shown := shown s1 @ checkScan h now (scheduledEvents s1) \<rparr>;
          r = setTimeout CheckEvents 60000 now s2
      in (snd r)\<lparr> notificationCheckTimeout := Some (fst r) \<rparr>)"

text \<open>The \<^verbatim>\<open>message\<close> listener; \<^verbatim>\<open>event.data.events || []\<close> makes an absent list
  empty.\<close>

datatype Message = SYNC_EVENTS "AppEvent list option" | OtherMessage

definition onMessage :: "Host \<Rightarrow> int \<Rightarrow> Message \<Rightarrow> ServiceWorker \<Rightarrow> ServiceWorker" where
  "onMessage h now msg s =
     (case msg of
        SYNC_EVENTS evs \<Rightarrow>
          checkEventsForNotifications h now
            (s\<lparr> scheduledEvents := (case evs of None \<Rightarrow> [] | Some l \<Rightarrow> l) \<rparr>)
      | OtherMessage \<Rightarrow> s)"

text \<open>\<^verbatim>\<open>body.replace(/^\(Adiado\) /, '')\<close>\<close>

definition stripAdiado :: "string \<Rightarrow> string" where
  "stripAdiado b = (if take 9 b = ''(Adiado) '' then drop 9 b else b)"

text \<open>The notification that the timeout of a snooze shows. It is built from the clicked
  notification, which does not change between the click and the timeout.\<close>

definition snoozedNotification :: "Notification \<Rightarrow> int \<Rightarrow> Notification" where
  "snoozedNotification notification count =
     \<lparr> n_title = n_title notification,
       body = ''(Adiado) '' @ stripAdiado (body notification),
       icon = icon notification,
       tag = tag notification @ ''-snooze-'' @ showInt count,
       data = (data notification)\<lparr> snoozeCount := Some count \<rparr>,
       actions = actions notification \<rparr>"

text \<open>
  The \<^verbatim>\<open>notificationclick\<close> listener. The action \<^verbatim>\<open>mark_as_read\<close> and a click on the
  body of the notification send a message to a window of the page or focus it; they set
  no timer and show nothing, and the windows are not part of the state. Every branch
  ends by closing the clicked notification, which the list of the notifications shown,
  a record of the calls of \<^verbatim>\<open>showNotification\<close>, does not register.
\<close>

definition onNotificationClick :: "int \<Rightarrow> string \<Rightarrow> Notification \<Rightarrow> ServiceWorker \<Rightarrow> ServiceWorker" where
  "onNotificationClick now action notification s =
     (if action = ''snooze'' then
        (let count = (case snoozeCount (data notification) of
                        None \<Rightarrow> 0
                      | Some c \<Rightarrow> c) + 1
         in if count \<le> 2
            then snd (setTimeout (ShowSnoozed (snoozedNotification notification count))
                        (5 * 60 * 1000) now s)
            else s)
      else s)"

text \<open>
  The host runs one listener or one due timeout at a time. A timeout runs once, when its
  time has come, and leaves the pending ones.
\<close>

datatype Input =
    MessageArrives int Message
  | TimerFires int nat
  | NotificationClicked int string Notification

definition fireTimer :: "Host \<Rightarrow> int \<Rightarrow> nat \<Rightarrow> ServiceWorker \<Rightarrow> ServiceWorker" where
  "fireTimer h now i s =
     (case find (\<lambda>t. timer_id t = i) (timers s) of
        None \<Rightarrow> s
      | Some t \<Rightarrow>
          if timer_due t \<le> now then
            (let s1 = s\<lparr> timers := filter (\<lambda>t. timer_id t \<noteq> i) (timers s) \<rparr>
             in case timer_callback t of
                  CheckEvents \<Rightarrow> checkEventsForNotifications h now s1
                | ShowSnoozed n \<Rightarrow> s1\<lparr> shown := shown s1 @ [n] \<rparr>)
          else s)"

fun step :: "Host \<Rightarrow> ServiceWorker \<Rightarrow> Input \<Rightarrow> ServiceWorker" where
  "step h s (MessageArrives now msg) = onMessage h now msg s"
| "step h s (TimerFires now i) = fireTimer h now i s"
| "step h s (NotificationClicked now action n) = onNotificationClick now action n s"

definition run :: "Host \<Rightarrow> Input list \<Rightarrow> ServiceWorker \<Rightarrow> ServiceWorker" where
  "run h inputs s = foldl (step h) s inputs"

section \<open>The occurrence expander (components/CalendarView.tsx)\<close>

definition toYYYYMMDD :: "Host \<Rightarrow> int \<Rightarrow> string" where
  "toYYYYMMDD h t =
     showInt (getFullYear h t) @ ''-'' @ padStart2 (showInt (getMonth h t + 1)) @ ''-''
     @ padStart2 (showInt (getDate h t))"

text \<open>The \<^verbatim>\<open>switch\<close> on the frequency that moves the cursor to the next occurrence.\<close>

definition advanceCursor :: "Host \<Rightarrow> EventRepeat \<Rightarrow> int \<Rightarrow> jsdate" where
  "advanceCursor h repeatRule t =
     (case frequency repeatRule of
        Daily \<Rightarrow> setDate h t (getDate h t + interval repeatRule)
      | Weekly \<Rightarrow> setDate h t (getDate h t + interval repeatRule * 7)
      | Monthly \<Rightarrow> setMonth h t (getMonth h t + interval repeatRule)
      | Yearly \<Rightarrow> setFullYear h t (getFullYear h t + interval repeatRule))"

text \<open>The occurrence pushed for a cursor: the event with its date and id rewritten.\<close>

definition occurrence :: "Host \<Rightarrow> AppEvent \<Rightarrow> int \<Rightarrow> AppEvent" where
  "occurrence h event cursor =
     event\<lparr> date := toYYYYMMDD h cursor,
            event_id := event_id event @ ''_'' @ toYYYYMMDD h cursor \<rparr>"

text \<open>
  The \<^verbatim>\<open>while\<close> loop of a repeating event. It has no bound of its own: where the
  cursor does not move forward the loop does not end, and the result is \<open>None\<close>.
\<close>

partial_function (option) expandLoop ::
  "Host \<Rightarrow> AppEvent \<Rightarrow> EventRepeat \<Rightarrow> jsdate \<Rightarrow> jsdate \<Rightarrow> jsdate \<Rightarrow> AppEvent list
     \<Rightarrow> AppEvent list option" where
  "expandLoop h event repeatRule viewStart viewEnd cursorDate allOccurrences =
     (case cursorDate of
        None \<Rightarrow> Some allOccurrences
      | Some c \<Rightarrow>
          if date_le (Some c) viewEnd then
            expandLoop h event repeatRule viewStart viewEnd (advanceCursor h repeatRule c)
              (if date_ge (Some c) viewStart
               then allOccurrences @ [occurrence h event c]
               else allOccurrences)
          else Some allOccurrences)"

declare expandLoop.simps [code]

text \<open>The \<^verbatim>\<open>forEach\<close> over the base events, with the list of occurrences so far.\<close>

fun expandEvents ::
  "Host \<Rightarrow> AppEvent list \<Rightarrow> jsdate \<Rightarrow> jsdate \<Rightarrow> AppEvent list \<Rightarrow> AppEvent list option" where
  "expandEvents h [] viewStart viewEnd allOccurrences = Some allOccurrences"
| "expandEvents h (event # rest) viewStart viewEnd allOccurrences =
     (case repeat event of
        None \<Rightarrow>
          (let eventDate = parseDate h (date event @ ''T00:00:00'')
           in expandEvents h rest viewStart viewEnd
                (if date_ge eventDate viewStart \<and> date_le eventDate viewEnd
                 then allOccurrences @ [event]
                 else allOccurrences))
      | Some repeatRule \<Rightarrow>
          (case expandLoop h event repeatRule viewStart viewEnd
                  (parseDate h (date event @ ''T00:00:00'')) allOccurrences of
             None \<Rightarrow> None
           | Some occs \<Rightarrow> expandEvents h rest viewStart viewEnd occs))"

definition expandRecurringEvents ::
  "Host \<Rightarrow> AppEvent list \<Rightarrow> jsdate \<Rightarrow> jsdate \<Rightarrow> AppEvent list option" where
  "expandRecurringEvents h baseEvents viewStart viewEnd =
     expandEvents h baseEvents viewStart viewEnd []"

section \<open>The notification instant in the words of the specification\<close>


text \<open>The lead time of an alert of minutes, hours, days or weeks, in milliseconds.\<close>

definition fixedLead :: "AppEventAlert \<Rightarrow> int option" where
  "fixedLead alert =
     (case alert_unit alert of
        Minutes \<Rightarrow> Some (alert_value alert * 60000)
      | Hours \<Rightarrow> Some (alert_value alert * 3600000)
      | Days \<Rightarrow> Some (alert_value alert * 86400000)
      | Weeks \<Rightarrow> Some (alert_value alert * 7 * 86400000)
      | _ \<Rightarrow> None)"

text \<open>
  For an alert of minutes, hours, days or weeks: the local time of \<open>T\<close> moved back by
  the lead time is read with the offset that is in force at \<open>T\<close>. So it is wherever the
  offset of the zone does not change; it fails when a change of the offset lies between
  the two, or when the clocks show the earlier local time twice.
\<close>

definition sameOffsetBack :: "Host \<Rightarrow> int \<Rightarrow> AppEventAlert \<Rightarrow> bool" where
  "sameOffsetBack h T alert =
     (case fixedLead alert of
        None \<Rightarrow> True
      | Some L \<Rightarrow> LocalTZA h (LocalTime h T - L) False = LocalTZA h T True)"


section \<open>Zones without a change of the offset\<close>


section \<open>The day a date string names\<close>





section \<open>Observations on the worker\<close>

text \<open>The pending timeouts of the polling loop.\<close>

definition isCheckTimer :: "Timer \<Rightarrow> bool" where
  "isCheckTimer x = (timer_callback x = CheckEvents)"

definition pendingChecks :: "ServiceWorker \<Rightarrow> Timer list" where
  "pendingChecks s = filter isCheckTimer (timers s)"

text \<open>The list of the most recent \<^verbatim>\<open>SYNC_EVENTS\<close> message among the inputs so far, in
  the words of the specification: the most recent list is authoritative.\<close>

fun lastSynced :: "AppEvent list \<Rightarrow> Input list \<Rightarrow> AppEvent list" where
  "lastSynced current [] = current"
| "lastSynced current (MessageArrives now (SYNC_EVENTS evs) # rest) =
     lastSynced (case evs of None \<Rightarrow> [] | Some l \<Rightarrow> l) rest"
| "lastSynced current (i # rest) = lastSynced current rest"

text \<open>What holds of the timers in every state the worker reaches.\<close>

definition workerInv :: "ServiceWorker \<Rightarrow> bool" where
  "workerInv s =
     (0 < nextTimerId s
      \<and> distinct (map timer_id (timers s))
      \<and> list_all (\<lambda>x. timer_id x < nextTimerId s) (timers s)
      \<and> list_all (\<lambda>x. notificationCheckTimeout s = Some (timer_id x)) (pendingChecks s)
      \<and> (case notificationCheckTimeout s of None \<Rightarrow> True | Some i \<Rightarrow> 0 < i))"

section \<open>Example hosts and events\<close>

text \<open>An engine set to UTC that reads the date-time format and nothing else.\<close>

definition utcHost :: Host where
  "utcHost = \<lparr> standardOffset = 0, offsetChanges = [], otherFormats = (\<lambda>s. None) \<rparr>"


text \<open>
  New York in 2024: five hours behind UTC, four hours from 10 March 07:00 UTC (02:00
  becomes 03:00) to 3 November 06:00 UTC (02:00 becomes 01:00).
\<close>

definition newYorkHost :: Host where
  "newYorkHost =
     \<lparr> standardOffset = - 18000000,
       offsetChanges = [(1710054000000, - 14400000), (1730613600000, - 18000000)],
       otherFormats = (\<lambda>s. None) \<rparr>"

definition exampleAlert :: AppEventAlert where
  "exampleAlert = \<lparr> alert_id = ''a1'', alert_value = 15, alert_unit = Minutes \<rparr>"

definition exampleEvent :: AppEvent where
  "exampleEvent =
     \<lparr> event_id = ''e1'', calendarId = ''c1'', title = ''Dentista'', date = ''2024-01-31'',
       startTime = ''09:00'', description = [], alerts = Some [exampleAlert],
       isCompleted = False, location = None, isAllDay = False, repeat = None \<rparr>"

text \<open>An all-day event as the event form saves it: the start time is \<^verbatim>\<open>00:00\<close>.\<close>

definition dayBefore :: AppEventAlert where
  "dayBefore = \<lparr> alert_id = ''a2'', alert_value = 1, alert_unit = Days \<rparr>"

definition allDayEvent :: AppEvent where
  "allDayEvent =
     \<lparr> event_id = ''e2'', calendarId = ''c1'', title = ''Feriado'', date = ''2024-01-31'',
       startTime = ''00:00'', description = [], alerts = Some [dayBefore],
       isCompleted = False, location = None, isAllDay = True, repeat = None \<rparr>"

definition dailyRule :: EventRepeat where
  "dailyRule = \<lparr> frequency = Daily, interval = 1 \<rparr>"

text \<open>An event whose date is not in the format of the date input.\<close>

definition badDateEvent :: AppEvent where
  "badDateEvent = exampleEvent\<lparr> event_id := ''e3'', date := ''31/01/2024'' \<rparr>"

definition monthlyRule :: EventRepeat where
  "monthlyRule = \<lparr> frequency = Monthly, interval = 1 \<rparr>"



section \<open>Evaluating the Date operations\<close>

lemmas zone_defs = UTC_def LocalTime_def LocalTZA_def

lemmas parse_defs =
  parseDate_def isoTime_def isoFields_def dateFields_def timeFields_def yearField_def
  secondsField_def offsetField_def fixedDigits_def expect_def DaysInMonth_def digitVal_def
  decimalDigits_def

lemmas date_defs =
  parse_defs zone_defs TimeClip_def MakeDate_def MakeDay_def
  MakeTime_def DayFromYear_def DaysInYear_def daysBeforeMonth_def msPerDay_def msPerHour_def
  msPerMinute_def msPerSecond_def

lemmas field_defs =
  YearFromTime_def YearFromDay_def MonthFromTime_def DateFromTime_def DayWithinYear_def
  InLeapYear_def Day_def TimeWithinDay_def HourFromTime_def MinFromTime_def SecFromTime_def
  msFromTime_def

text \<open>On a host set to UTC the local time is the time value.\<close>

lemma utc_zone: "LocalTime utcHost t = t" "UTC utcHost t = t"
  by (simp_all add: zone_defs utcHost_def)

lemma utc_get:
  "getFullYear utcHost t = YearFromTime t" "getMonth utcHost t = MonthFromTime t"
  "getDate utcHost t = DateFromTime t" "getHours utcHost t = HourFromTime t"
  "getMinutes utcHost t = MinFromTime t"
  by (simp_all add: getFullYear_def getMonth_def getDate_def getHours_def getMinutes_def
      utc_zone)

lemma utc_set:
  "setDate utcHost t d =
     TimeClip (MakeDate (MakeDay (YearFromTime t) (MonthFromTime t) d) (TimeWithinDay t))"
  "setMonth utcHost t m =
     TimeClip (MakeDate (MakeDay (YearFromTime t) m (DateFromTime t)) (TimeWithinDay t))"
  "setFullYear utcHost t y =
     TimeClip (MakeDate (MakeDay y (MonthFromTime t) (DateFromTime t)) (TimeWithinDay t))"
  "setHours utcHost t hr =
     TimeClip (MakeDate (Day t) (MakeTime hr (MinFromTime t) (SecFromTime t) (msFromTime t)))"
  "setMinutes utcHost t mi =
     TimeClip (MakeDate (Day t) (MakeTime (HourFromTime t) mi (SecFromTime t) (msFromTime t)))"
  by (simp_all add: setDate_def setMonth_def setFullYear_def setHours_def setMinutes_def
      utc_zone)

lemmas day_defs =
  MakeDate_def MakeDay_def MakeTime_def DayFromYear_def DaysInYear_def
  daysBeforeMonth_def msPerDay_def msPerHour_def msPerMinute_def msPerSecond_def

lemmas calc_defs = TimeClip_def day_defs

lemma parse_example: "parseDate utcHost ''2024-01-31T09:00'' = Some 1706691600000"
  by (simp add: date_defs utcHost_def)

lemma parse_allDay: "parseDate utcHost ''2024-01-31T00:00'' = Some 1706659200000"
  by (simp add: date_defs utcHost_def)

lemma notificationTime_example:
  "notificationTime utcHost 1706691600000 exampleAlert = Some 1706690700000"
  by (simp add: notificationTime_def exampleAlert_def utc_set utc_get field_defs calc_defs)

lemma notificationTime_dayBefore:
  "notificationTime utcHost 1706659200000 dayBefore = Some 1706572800000"
  by (simp add: notificationTime_def dayBefore_def utc_set utc_get field_defs calc_defs)

lemma checkEvent_example:
  "checkEvent utcHost 1706690700000 exampleEvent
     = [alertNotification exampleEvent exampleAlert]"
  by (simp add: checkEvent_def exampleEvent_def parse_example checkAlert_def
      notificationTime_example)

lemma checkEvent_allDay:
  "checkEvent utcHost 1706572800000 allDayEvent = [alertNotification allDayEvent dayBefore]"
  by (simp add: checkEvent_def allDayEvent_def parse_allDay checkAlert_def
      notificationTime_dayBefore)

section \<open>The due-alert scan\<close>

lemma alertNotification_isAllDay:
  "alertNotification (event\<lparr> isAllDay := b \<rparr>) a = alertNotification event a"
  by (simp add: alertNotification_def alertBody_def)

lemma checkAlert_isAllDay:
  "checkAlert h now (event\<lparr> isAllDay := b \<rparr>) = checkAlert h now event"
  by (rule ext, rule ext)
     (simp add: checkAlert_def alertNotification_isAllDay split: option.splits)

lemma alertNotification_repeat:
  "alertNotification (event\<lparr> repeat := r \<rparr>) a = alertNotification event a"
  by (simp add: alertNotification_def alertBody_def)

lemma checkAlert_repeat:
  "checkAlert h now (event\<lparr> repeat := r \<rparr>) = checkAlert h now event"
  by (rule ext, rule ext)
     (simp add: checkAlert_def alertNotification_repeat split: option.splits)

lemma checkEvent_repeat:
  "checkEvent h now (event\<lparr> repeat := r \<rparr>) = checkEvent h now event"
  by (simp add: checkEvent_def checkAlert_repeat split: option.splits)

lemma checkAlert_fired:
  assumes "n \<in> set (checkAlert h now event T a)"
  shows "n = alertNotification event a
         \<and> (\<exists>t. notificationTime h T a = Some t \<and> t \<le> now \<and> now < t + 60000)"
proof (cases "notificationTime h T a")
  case None
  with assms show ?thesis by (simp add: checkAlert_def)
next
  case (Some t)
  with assms show ?thesis by (simp add: checkAlert_def Let_def split: if_splits)
qed

lemma checkEvent_fired:
  assumes "n \<in> set (checkEvent h now event)"
  shows "\<exists>as a T t. alerts event = Some as \<and> a \<in> set as \<and> n = alertNotification event a
           \<and> parseDate h (date event @ ''T'' @ startTime event) = Some T
           \<and> notificationTime h T a = Some t \<and> t \<le> now \<and> now < t + 60000"
proof -
  from assms obtain as where as: "alerts event = Some as"
    by (cases "alerts event") (simp_all add: checkEvent_def)
  from assms as obtain T where T: "parseDate h (date event @ ''T'' @ startTime event) = Some T"
    by (cases "parseDate h (date event @ ''T'' @ startTime event)")
       (simp_all add: checkEvent_def split: if_splits)
  from assms as T have "n \<in> set (concat (map (checkAlert h now event T) as))"
    by (simp add: checkEvent_def split: if_splits)
  then obtain a where a: "a \<in> set as" "n \<in> set (checkAlert h now event T a)"
    by auto
  from checkAlert_fired [OF a(2)] as T a(1) show ?thesis
    by blast
qed

text \<open>
  C8. An event with \<open>isCompleted = true\<close> shows no notification in a tick, whatever its
  alerts, the time and the host: its own scan is empty, and the scan of a list is the
  scan of the list without it.
\<close>

theorem completed_event_fires_nothing:
  "isCompleted event \<Longrightarrow>
     checkEvent h now event = []
     \<and> checkScan h now (before @ event # after) = checkScan h now (before @ after)"
  by (simp add: checkEvent_def checkScan_def split: option.splits)

text \<open>The example event is due at 08:45; once completed it shows nothing there.\<close>

theorem completed_event_fires_nothing_witness:
  "isCompleted (exampleEvent\<lparr> isCompleted := True \<rparr>)
   \<and> checkEvent utcHost 1706690700000 exampleEvent \<noteq> []
   \<and> checkEvent utcHost 1706690700000 (exampleEvent\<lparr> isCompleted := True \<rparr>) = []
   \<and> checkScan utcHost 1706690700000
         ([] @ exampleEvent\<lparr> isCompleted := True \<rparr> # [exampleEvent])
       = checkScan utcHost 1706690700000 ([] @ [exampleEvent])"
  using completed_event_fires_nothing
          [where event = "exampleEvent\<lparr> isCompleted := True \<rparr>" and now = 1706690700000
             and before = "[]" and after = "[exampleEvent]" and h = utcHost]
  by (simp add: checkEvent_example)

text \<open>
  C1, as the claim states it, fails: the all-day event of 31 January 2024 with an alert
  of one day shows its notification at midnight of 30 January (on a host set to UTC).
\<close>

theorem allDay_event_fires_counterexample:
  "isAllDay allDayEvent \<and> checkEvent utcHost 1706572800000 allDayEvent \<noteq> []"
  by (simp add: checkEvent_allDay) (simp add: allDayEvent_def)

text \<open>
  C1, amended. The scan does not read \<open>isAllDay\<close>: on every host and at every time an
  event shows the same notifications with the flag set and without it. An all-day event
  is scanned from its date and its stored start time like any other event.
\<close>

theorem allDay_flag_not_read:
  "checkEvent h now (event\<lparr> isAllDay := b \<rparr>) = checkEvent h now event"
  by (simp add: checkEvent_def checkAlert_isAllDay split: option.splits)

theorem allDay_flag_not_read_witness:
  "checkEvent utcHost 1706572800000 (allDayEvent\<lparr> isAllDay := False \<rparr>)
     = [alertNotification allDayEvent dayBefore]"
  using allDay_flag_not_read
          [where now = 1706572800000 and event = allDayEvent and b = False and h = utcHost]
  by (simp add: checkEvent_allDay)

section \<open>The Date setters as arithmetic on the time value\<close>









section \<open>Zones without a change of the offset\<close>





lemma fixed_sameOffsetBack:
  assumes "offsetChanges h = []"
  shows "sameOffsetBack h T a"
  using assms by (simp add: sameOffsetBack_def LocalTZA_def split: option.splits)

section \<open>The due window of an alert\<close>





subsection \<open>An alert of one hour across the start of daylight saving time\<close>










text \<open>
  C10. The scan does not read the repeat rule and expands nothing: an event shows the
  same notifications with any repeat rule and with none, and each notification it shows
  is the one of an alert whose notification time, counted back from the stored date and
  start time of the event, lies in the minute that ends at \<open>now\<close>.
\<close>

theorem scan_uses_anchor_only:
  "checkEvent h now (event\<lparr> repeat := r \<rparr>) = checkEvent h now event
   \<and> (\<forall>n \<in> set (checkEvent h now event).
        \<exists>as a T t. alerts event = Some as \<and> a \<in> set as \<and> n = alertNotification event a
          \<and> parseDate h (date event @ ''T'' @ startTime event) = Some T
          \<and> notificationTime h T a = Some t \<and> t \<le> now \<and> now < t + 60000)"
  using checkEvent_repeat checkEvent_fired by blast

text \<open>
  The example event repeated daily: its alert is shown at 08:45 of 31 January, the anchor
  date, and nothing is shown at 08:45 of 1 February, 15 minutes before the second
  occurrence.
\<close>

theorem scan_uses_anchor_only_witness:
  "checkEvent utcHost 1706690700000 (exampleEvent\<lparr> repeat := Some dailyRule \<rparr>)
     = [alertNotification exampleEvent exampleAlert]
   \<and> checkEvent utcHost 1706777100000 (exampleEvent\<lparr> repeat := Some dailyRule \<rparr>) = []
   \<and> (\<exists>as a T t. alerts exampleEvent = Some as \<and> a \<in> set as
         \<and> alertNotification exampleEvent exampleAlert = alertNotification exampleEvent a
         \<and> parseDate utcHost (date exampleEvent @ ''T'' @ startTime exampleEvent) = Some T
         \<and> notificationTime utcHost T a = Some t \<and> t \<le> 1706690700000
         \<and> 1706690700000 < t + 60000)"
proof -
  have next_day: "checkEvent utcHost 1706777100000 exampleEvent = []"
    by (simp add: checkEvent_def exampleEvent_def parse_example checkAlert_def
        notificationTime_example)
  show ?thesis
    using scan_uses_anchor_only
            [where now = 1706690700000 and event = exampleEvent and r = "Some dailyRule"
               and h = utcHost]
          scan_uses_anchor_only
            [where now = 1706777100000 and event = exampleEvent and r = "Some dailyRule"
               and h = utcHost]
    by (simp add: checkEvent_example next_day)
qed

section \<open>The calendar fields of a day\<close>













section \<open>Writing a date and reading it back\<close>








section \<open>The shape of a string of the date-time format\<close>






















section \<open>The worker as a state machine\<close>

lemma workerInv_initial: "workerInv initialWorker"
  by (simp add: workerInv_def initialWorker_def pendingChecks_def)

lemma filter_check_clear:
  assumes "list_all (\<lambda>x. timer_id x = i) (filter isCheckTimer ts)"
  shows "filter isCheckTimer (filter (\<lambda>t. timer_id t \<noteq> i) ts) = []"
  using assms by (induction ts) auto

lemma checkEvents_timers:
  assumes "workerInv s"
  shows "pendingChecks (checkEventsForNotifications h now s)
           = [\<lparr> timer_id = nextTimerId s, timer_due = now + 60000, timer_callback = CheckEvents \<rparr>]"
proof (cases "notificationCheckTimeout s")
  case None
  with assms have "pendingChecks s = []"
    by (cases "pendingChecks s") (simp_all add: workerInv_def)
  with None show ?thesis
    by (simp add: checkEventsForNotifications_def setTimeout_def pendingChecks_def Let_def
        isCheckTimer_def)
next
  case (Some i)
  with assms have i: "0 < i" by (simp add: workerInv_def)
  from assms Some have "list_all (\<lambda>x. timer_id x = i) (filter isCheckTimer (timers s))"
    by (simp add: workerInv_def pendingChecks_def list_all_iff) 
  then have "filter isCheckTimer (filter (\<lambda>t. timer_id t \<noteq> i) (timers s)) = []"
    by (rule filter_check_clear)
  with Some i show ?thesis
    by (simp add: checkEventsForNotifications_def setTimeout_def clearTimeout_def
        pendingChecks_def Let_def isCheckTimer_def)
qed

lemma checkEvents_fields:
  "scheduledEvents (checkEventsForNotifications h now s) = scheduledEvents s"
  "shown (checkEventsForNotifications h now s) = shown s @ checkScan h now (scheduledEvents s)"
  "nextTimerId (checkEventsForNotifications h now s) = Suc (nextTimerId s)"
  "notificationCheckTimeout (checkEventsForNotifications h now s) = Some (nextTimerId s)"
  by (simp_all add: checkEventsForNotifications_def setTimeout_def clearTimeout_def Let_def
      split: option.splits)

lemma checkEvents_timers_set:
  "set (timers (checkEventsForNotifications h now s))
     \<subseteq> insert \<lparr> timer_id = nextTimerId s, timer_due = now + 60000, timer_callback = CheckEvents \<rparr>
          (set (timers s))"
  by (auto simp add: checkEventsForNotifications_def setTimeout_def clearTimeout_def Let_def
      split: option.splits)

lemma distinct_filter_ids:
  "distinct (map timer_id ts) \<Longrightarrow> distinct (map timer_id (filter P ts))"
  by (simp add: distinct_map_filter)

lemma checkEvents_inv:
  assumes "workerInv s"
  shows "workerInv (checkEventsForNotifications h now s)"
proof -
  let ?s' = "checkEventsForNotifications h now s"
  from assms have d: "distinct (map timer_id (timers s))"
    and lt: "list_all (\<lambda>x. timer_id x < nextTimerId s) (timers s)"
    and pos: "0 < nextTimerId s"
    by (simp_all add: workerInv_def)
  have t: "timers ?s' = (case notificationCheckTimeout s of None \<Rightarrow> timers s
             | Some i \<Rightarrow> if i = 0 then timers s else filter (\<lambda>t. timer_id t \<noteq> i) (timers s))
           @ [\<lparr> timer_id = nextTimerId s, timer_due = now + 60000, timer_callback = CheckEvents \<rparr>]"
    by (simp add: checkEventsForNotifications_def setTimeout_def clearTimeout_def Let_def
        split: option.splits)
  from d lt have "distinct (map timer_id (timers ?s'))"
    unfolding t by (auto simp add: list_all_iff distinct_map_filter split: option.splits)
  moreover from lt have "list_all (\<lambda>x. timer_id x < nextTimerId ?s') (timers ?s')"
    unfolding t by (auto simp add: checkEvents_fields list_all_iff split: option.splits)
  moreover have "list_all (\<lambda>x. notificationCheckTimeout ?s' = Some (timer_id x)) (pendingChecks ?s')"
    by (simp add: checkEvents_timers [OF assms] checkEvents_fields)
  ultimately show ?thesis
    using pos by (simp add: workerInv_def checkEvents_fields)
qed


lemma onMessage_inv: "workerInv s \<Longrightarrow> workerInv (onMessage h now msg s)"
proof (cases msg)
  case (SYNC_EVENTS evs)
  assume "workerInv s"
  then have "workerInv (s\<lparr> scheduledEvents := (case evs of None \<Rightarrow> [] | Some l \<Rightarrow> l) \<rparr>)"
    by (simp add: workerInv_def pendingChecks_def)
  then show ?thesis
    using SYNC_EVENTS by (simp add: onMessage_def checkEvents_inv)
next
  case OtherMessage
  assume "workerInv s"
  with OtherMessage show ?thesis by (simp add: onMessage_def)
qed

lemma click_inv: "workerInv s \<Longrightarrow> workerInv (onNotificationClick now action n s)"
  by (auto simp add: onNotificationClick_def setTimeout_def workerInv_def pendingChecks_def
      isCheckTimer_def Let_def list_all_iff split: option.splits)

lemma removed_inv:
  assumes "workerInv s"
  shows "workerInv (s\<lparr> timers := filter (\<lambda>t. timer_id t \<noteq> i) (timers s) \<rparr>)"
  using assms
  by (auto simp add: workerInv_def pendingChecks_def list_all_iff distinct_map_filter)

lemma fireTimer_inv:
  assumes "workerInv s"
  shows "workerInv (fireTimer h now i s)"
proof (cases "find (\<lambda>t. timer_id t = i) (timers s)")
  case None
  with assms show ?thesis by (simp add: fireTimer_def)
next
  case (Some t)
  note r = removed_inv [OF assms, of i]
  show ?thesis
  proof (cases "timer_callback t")
    case CheckEvents
    with Some assms r show ?thesis
      by (simp add: fireTimer_def Let_def checkEvents_inv)
  next
    case (ShowSnoozed n)
    from r have "workerInv (s\<lparr> timers := filter (\<lambda>t. timer_id t \<noteq> i) (timers s),
                                shown := shown s @ [n] \<rparr>)"
      by (simp add: workerInv_def pendingChecks_def)
    with Some ShowSnoozed assms show ?thesis
      by (simp add: fireTimer_def Let_def)
  qed
qed

lemma step_inv: "workerInv s \<Longrightarrow> workerInv (step h s i)"
  by (cases i) (simp_all add: onMessage_inv fireTimer_inv click_inv)

lemma run_inv: "workerInv s \<Longrightarrow> workerInv (run h inputs s)"
  unfolding run_def by (induction inputs arbitrary: s) (simp_all add: step_inv)

lemma run_append: "run h (xs @ ys) s = run h ys (run h xs s)"
  by (simp add: run_def)

lemma reachable_inv: "workerInv (run h inputs initialWorker)"
  by (rule run_inv [OF workerInv_initial])

lemma pendingChecks_le_one:
  assumes "workerInv s"
  shows "length (pendingChecks s) \<le> 1"
proof -
  from assms have d: "distinct (map timer_id (pendingChecks s))"
    by (simp add: workerInv_def pendingChecks_def distinct_map_filter)
  from assms have a: "list_all (\<lambda>x. notificationCheckTimeout s = Some (timer_id x)) (pendingChecks s)"
    by (simp add: workerInv_def)
  show ?thesis
  proof (cases "pendingChecks s")
    case Nil
    then show ?thesis by simp
  next
    case (Cons x xs)
    show ?thesis
    proof (cases xs)
      case Nil
      with Cons show ?thesis by simp
    next
      case (Cons y ys)
      with \<open>pendingChecks s = x # xs\<close> d a show ?thesis by auto
    qed
  qed
qed

text \<open>The list the worker holds is the one of the last SYNC_EVENTS message.\<close>

lemma fireTimer_scheduledEvents: "scheduledEvents (fireTimer h now i s) = scheduledEvents s"
  by (simp add: fireTimer_def Let_def checkEvents_fields
      split: option.splits TimerCallback.splits)

lemma click_scheduledEvents:
  "scheduledEvents (onNotificationClick now action n s) = scheduledEvents s"
  by (simp add: onNotificationClick_def setTimeout_def Let_def)

lemma run_lastSynced:
  "scheduledEvents (run h inputs s) = lastSynced (scheduledEvents s) inputs"
proof (induction inputs arbitrary: s)
  case Nil
  show ?case by (simp add: run_def)
next
  case (Cons i inputs)
  have r: "run h (i # inputs) s = run h inputs (step h s i)" by (simp add: run_def)
  show ?case
  proof (cases i)
    case (MessageArrives now msg)
    then show ?thesis
      unfolding r Cons.IH
      by (cases msg) (simp_all add: onMessage_def checkEvents_fields)
  next
    case (TimerFires now k)
    then show ?thesis
      unfolding r Cons.IH by (simp add: fireTimer_scheduledEvents)
  next
    case (NotificationClicked now action n)
    then show ?thesis
      unfolding r Cons.IH by (simp add: click_scheduledEvents)
  qed
qed

text \<open>A due tick scans the list the worker holds.\<close>

lemma find_by_id:
  assumes "distinct (map timer_id ts)" and "x \<in> set ts"
  shows "find (\<lambda>t. timer_id t = timer_id x) ts = Some x"
  using assms by (induction ts) (auto simp add: rev_image_eqI)

lemma tick_scans:
  assumes "workerInv s" and "x \<in> set (pendingChecks s)" and "timer_due x \<le> now"
  shows "shown (fireTimer h now (timer_id x) s) = shown s @ checkScan h now (scheduledEvents s)"
proof -
  from assms(2) have x: "x \<in> set (timers s)" "timer_callback x = CheckEvents"
    by (simp_all add: pendingChecks_def isCheckTimer_def)
  from assms(1) have "distinct (map timer_id (timers s))" by (simp add: workerInv_def)
  from find_by_id [OF this x(1)] x(2) assms(3) show ?thesis
    by (simp add: fireTimer_def Let_def checkEvents_fields)
qed

lemma onMessage_sync:
  "onMessage h now (SYNC_EVENTS (Some l)) s
     = checkEventsForNotifications h now (s\<lparr> scheduledEvents := l \<rparr>)"
  by (simp add: onMessage_def)

lemma lastSynced_no_message:
  assumes "list_all (\<lambda>i. case i of MessageArrives t m \<Rightarrow> False | _ \<Rightarrow> True) later"
  shows "lastSynced current later = current"
  using assms
proof (induction later)
  case Nil
  show ?case by simp
next
  case (Cons i later)
  then show ?case by (cases i) simp_all
qed

text \<open>
  C5. On every host, in every state the worker reaches there is at most one pending
  polling timeout, and a tick that runs scans the list the worker holds, which is the
  list of the most recent SYNC_EVENTS message. When list \<open>A\<close> arrives and then list \<open>B\<close>,
  with nothing in between, the one pending polling timeout is the one set at the arrival
  of \<open>B\<close>, the notifications shown are those of the pass over \<open>A\<close> at its arrival
  followed by the pass over \<open>B\<close> at its arrival, and through any later timeouts and
  clicks the worker holds \<open>B\<close>: every later tick scans \<open>B\<close>.
\<close>

theorem latest_list_supersedes:
  assumes "s0 = run h history initialWorker"
    and "sB = run h [MessageArrives tA (SYNC_EVENTS (Some A)),
                   MessageArrives tB (SYNC_EVENTS (Some B))] s0"
    and "list_all (\<lambda>i. case i of MessageArrives t m \<Rightarrow> False | _ \<Rightarrow> True) later"
    and "s = run h later sB"
  shows "length (pendingChecks s0) \<le> 1 \<and> length (pendingChecks s) \<le> 1
         \<and> scheduledEvents s0 = lastSynced [] history
         \<and> pendingChecks sB
             = [\<lparr> timer_id = Suc (nextTimerId s0), timer_due = tB + 60000,
                  timer_callback = CheckEvents \<rparr>]
         \<and> shown sB = shown s0 @ checkScan h tA A @ checkScan h tB B
         \<and> scheduledEvents s = B
         \<and> (\<forall>x \<in> set (pendingChecks s). \<forall>now \<ge> timer_due x.
               shown (fireTimer h now (timer_id x) s) = shown s @ checkScan h now B)"
proof -
  have inv0: "workerInv s0"
    unfolding assms(1) by (rule reachable_inv)
  let ?sA = "onMessage h tA (SYNC_EVENTS (Some A)) s0"
  have sB: "sB = onMessage h tB (SYNC_EVENTS (Some B)) ?sA"
    unfolding assms(2) by (simp add: run_def)
  have invA: "workerInv ?sA"
    by (rule onMessage_inv [OF inv0])
  have invA': "workerInv (?sA\<lparr> scheduledEvents := B \<rparr>)"
    using invA by (simp add: workerInv_def pendingChecks_def)
  have invB: "workerInv sB"
    unfolding sB by (rule onMessage_inv [OF invA])
  have inv: "workerInv s"
    unfolding assms(4) by (rule run_inv [OF invB])
  have one: "length (pendingChecks s0) \<le> 1 \<and> length (pendingChecks s) \<le> 1"
    using pendingChecks_le_one [OF inv0] pendingChecks_le_one [OF inv] by simp
  have last: "scheduledEvents s0 = lastSynced [] history"
    unfolding assms(1) by (simp add: run_lastSynced initialWorker_def)
  have pend: "pendingChecks sB
           = [\<lparr> timer_id = Suc (nextTimerId s0), timer_due = tB + 60000,
                timer_callback = CheckEvents \<rparr>]"
    unfolding sB onMessage_sync
    using checkEvents_timers [OF invA', where now = tB and h = h]
    by (simp add: onMessage_sync checkEvents_fields)
  have sh: "shown sB = shown s0 @ checkScan h tA A @ checkScan h tB B"
    unfolding sB by (simp add: onMessage_sync checkEvents_fields)
  have "scheduledEvents sB = B"
    unfolding sB by (simp add: onMessage_sync checkEvents_fields)
  then have held: "scheduledEvents s = B"
    unfolding assms(4) by (simp add: run_lastSynced lastSynced_no_message [OF assms(3)])
  have tick: "\<forall>x \<in> set (pendingChecks s). \<forall>now \<ge> timer_due x.
           shown (fireTimer h now (timer_id x) s) = shown s @ checkScan h now B"
    using tick_scans [OF inv] held by simp
  from one last pend sh held tick show ?thesis by blast
qed

text \<open>
  Two lists in a row, the first with the example event due at its arrival; then the
  timeout of the first list, which was cleared, and the timeout of the second.
\<close>

theorem latest_list_supersedes_witness:
  "list_all (\<lambda>i. case i of MessageArrives t m \<Rightarrow> False | _ \<Rightarrow> True)
     [TimerFires 1706690760000 1, TimerFires 1706690761000 2]
   \<and> pendingChecks (run utcHost [MessageArrives 1706690700000 (SYNC_EVENTS (Some [exampleEvent])),
                         MessageArrives 1706690701000 (SYNC_EVENTS (Some [allDayEvent]))]
                      (run utcHost [] initialWorker))
       = [\<lparr> timer_id = 2, timer_due = 1706690761000, timer_callback = CheckEvents \<rparr>]
   \<and> shown (run utcHost [MessageArrives 1706690700000 (SYNC_EVENTS (Some [exampleEvent])),
                 MessageArrives 1706690701000 (SYNC_EVENTS (Some [allDayEvent]))]
              (run utcHost [] initialWorker))
       = checkScan utcHost 1706690700000 [exampleEvent]
         @ checkScan utcHost 1706690701000 [allDayEvent]
   \<and> scheduledEvents
        (run utcHost [TimerFires 1706690760000 1, TimerFires 1706690761000 2]
           (run utcHost [MessageArrives 1706690700000 (SYNC_EVENTS (Some [exampleEvent])),
                 MessageArrives 1706690701000 (SYNC_EVENTS (Some [allDayEvent]))]
              (run utcHost [] initialWorker)))
       = [allDayEvent]"
proof -
  have h: "list_all (\<lambda>i. case i of MessageArrives t m \<Rightarrow> False | _ \<Rightarrow> True)
             [TimerFires 1706690760000 1, TimerFires 1706690761000 2]"
    by simp
  have e: "\<And>w. run utcHost [] w = w"
    by (simp add: run_def)
  show ?thesis
    using h latest_list_supersedes
            [where history = "[]" and tA = 1706690700000 and tB = 1706690701000
               and A = "[exampleEvent]" and B = "[allDayEvent]" and h = utcHost,
             OF refl refl h refl]
    by (simp add: e initialWorker_def)
qed

section \<open>Snoozing a notification\<close>

lemma find_fresh:
  assumes "list_all (\<lambda>x. timer_id x < k) ts" and "timer_id y = k"
  shows "find (\<lambda>t. timer_id t = k) (ts @ [y]) = Some y"
  using assms by (induction ts) auto

lemma filter_fresh:
  assumes "list_all (\<lambda>x. timer_id x < k) ts" and "timer_id y = k"
  shows "filter (\<lambda>t. timer_id t \<noteq> k) (ts @ [y]) = ts"
  using assms by (induction ts) auto

lemma snoozed_fields:
  "snoozeCount (data (snoozedNotification n c)) = Some c"
  "tag (snoozedNotification n c) = tag n @ ''-snooze-'' @ showInt c"
  by (simp_all add: snoozedNotification_def)

text \<open>
  C6. On every host and in every state the worker reaches, the snooze action on a
  notification sets a timeout of 5 minutes that shows a new notification, with the
  snooze count one higher and the tag followed by \<^verbatim>\<open>-snooze-\<close> and the count; the
  timeout shows it when the 5 minutes are over and not before. With a count above 2 the
  action sets no timeout and changes nothing. The notification of an alert starts at
  count 0, so after two snoozes of it the third snooze does nothing.
\<close>

theorem snooze_capped_at_two:
  assumes "s = run h history initialWorker"
    and "count = (case snoozeCount (data n) of None \<Rightarrow> 0 | Some c \<Rightarrow> c) + 1"
    and "s' = onNotificationClick now ''snooze'' n s"
  shows "(count \<le> 2 \<longrightarrow>
            timers s' = timers s @ [\<lparr> timer_id = nextTimerId s, timer_due = now + 300000,
                                      timer_callback = ShowSnoozed (snoozedNotification n count) \<rparr>]
            \<and> shown s' = shown s
            \<and> snoozeCount (data (snoozedNotification n count)) = Some count
            \<and> tag (snoozedNotification n count) = tag n @ ''-snooze-'' @ showInt count
            \<and> (\<forall>t \<ge> now + 300000.
                  shown (fireTimer h t (nextTimerId s) s') = shown s @ [snoozedNotification n count]
                  \<and> timers (fireTimer h t (nextTimerId s) s') = timers s)
            \<and> (\<forall>t < now + 300000. fireTimer h t (nextTimerId s) s' = s'))
         \<and> (2 < count \<longrightarrow> s' = s)
         \<and> snoozeCount (data (alertNotification event alert)) = Some 0
         \<and> onNotificationClick now ''snooze''
              (snoozedNotification (snoozedNotification (alertNotification event alert) 1) 2) s
             = s"
proof -
  have inv: "workerInv s"
    unfolding assms(1) by (rule reachable_inv)
  then have lt: "list_all (\<lambda>x. timer_id x < nextTimerId s) (timers s)"
    by (simp add: workerInv_def)
  let ?n' = "snoozedNotification n count"
  let ?new = "\<lparr> timer_id = nextTimerId s, timer_due = now + 300000,
                timer_callback = ShowSnoozed ?n' \<rparr>"
  have id: "timer_id ?new = nextTimerId s" by simp
  {
    assume c: "count \<le> 2"
    then have s': "s' = s\<lparr> timers := timers s @ [?new], nextTimerId := Suc (nextTimerId s) \<rparr>"
      unfolding assms(3) using assms(2)
      by (simp add: onNotificationClick_def setTimeout_def Let_def)
    have f: "find (\<lambda>t. timer_id t = nextTimerId s) (timers s') = Some ?new"
      unfolding s' using find_fresh [OF lt id] by simp
    have r: "filter (\<lambda>t. timer_id t \<noteq> nextTimerId s) (timers s') = timers s"
      unfolding s' using filter_fresh [OF lt id] by simp
    have late: "\<forall>t \<ge> now + 300000.
                  shown (fireTimer h t (nextTimerId s) s') = shown s @ [?n']
                  \<and> timers (fireTimer h t (nextTimerId s) s') = timers s"
      using f r by (simp add: fireTimer_def Let_def s')
    have early: "\<forall>t < now + 300000. fireTimer h t (nextTimerId s) s' = s'"
      using f by (simp add: fireTimer_def)
    have "timers s' = timers s @ [?new] \<and> shown s' = shown s
          \<and> snoozeCount (data ?n') = Some count
          \<and> tag ?n' = tag n @ ''-snooze-'' @ showInt count
          \<and> (\<forall>t \<ge> now + 300000.
                  shown (fireTimer h t (nextTimerId s) s') = shown s @ [?n']
                  \<and> timers (fireTimer h t (nextTimerId s) s') = timers s)
          \<and> (\<forall>t < now + 300000. fireTimer h t (nextTimerId s) s' = s')"
      using late early by (simp add: s' snoozed_fields)
  }
  moreover have "2 < count \<longrightarrow> s' = s"
    unfolding assms(3) using assms(2)
    by (simp add: onNotificationClick_def Let_def)
  moreover have "snoozeCount (data (alertNotification event alert)) = Some 0"
    by (simp add: alertNotification_def)
  moreover have "onNotificationClick now ''snooze''
              (snoozedNotification (snoozedNotification (alertNotification event alert) 1) 2) s
             = s"
    by (simp add: onNotificationClick_def Let_def snoozed_fields)
  ultimately show ?thesis by blast
qed

text \<open>The first snooze of the example notification, clicked at 08:45.\<close>

theorem snooze_capped_at_two_witness:
  "timers (onNotificationClick 1706690700000 ''snooze''
             (alertNotification exampleEvent exampleAlert) (run utcHost [] initialWorker))
     = [\<lparr> timer_id = 1, timer_due = 1706691000000,
          timer_callback =
            ShowSnoozed (snoozedNotification (alertNotification exampleEvent exampleAlert) 1) \<rparr>]
   \<and> tag (snoozedNotification (alertNotification exampleEvent exampleAlert) 1)
       = tag (alertNotification exampleEvent exampleAlert) @ ''-snooze-'' @ showInt 1
   \<and> onNotificationClick 1706690700000 ''snooze''
        (snoozedNotification
           (snoozedNotification (alertNotification exampleEvent exampleAlert) 1) 2)
        (run utcHost [] initialWorker)
       = run utcHost [] initialWorker"
proof -
  have c: "(case snoozeCount (data (alertNotification exampleEvent exampleAlert)) of
              None \<Rightarrow> 0 | Some c \<Rightarrow> c) + 1 = (1::int)"
    by (simp add: alertNotification_def)
  have e: "\<And>w. run utcHost [] w = w"
    by (simp add: run_def)
  show ?thesis
    using snooze_capped_at_two
            [where history = "[]" and n = "alertNotification exampleEvent exampleAlert"
               and now = 1706690700000 and event = exampleEvent and alert = exampleAlert
               and h = utcHost, OF refl refl refl]
    by (simp add: c e initialWorker_def)
qed


section \<open>The occurrence expander\<close>

lemma expandLoop_invalid:
  "expandLoop h event repeatRule viewStart viewEnd None occs = Some occs"
  by (simp add: expandLoop.simps)

lemma expandEvents_append:
  "expandEvents h (xs @ ys) viewStart viewEnd occs =
     (case expandEvents h xs viewStart viewEnd occs of
        None \<Rightarrow> None
      | Some occs' \<Rightarrow> expandEvents h ys viewStart viewEnd occs')"
proof (induction xs arbitrary: occs)
  case Nil
  show ?case by simp
next
  case (Cons x xs)
  show ?case
    by (simp add: Cons.IH Let_def split: option.splits)
qed

lemma expandEvents_invalid:
  assumes "parseDate h (date event @ ''T00:00:00'') = None"
  shows "expandEvents h (event # rest) viewStart viewEnd occs
           = expandEvents h rest viewStart viewEnd occs"
  using assms
  by (simp add: expandLoop_invalid date_ge_def date_le_def Let_def split: option.splits)

text \<open>
  C9. A date is unparsable on a host when \<^verbatim>\<open>new Date\<close> gives an Invalid Date for it
  there: the string is no date-time of the format with its fields in range, and the
  engine of the host reads nothing else in it (or what is read lies out of the range of
  Dates). On every host, an event whose date, with \<^verbatim>\<open>T00:00:00\<close> appended, is
  unparsable gives no occurrence: the expander returns, and the result for a list is
  the result for the list without the event. An event whose date and start time are
  unparsable shows no notification, and the scan of a list is the scan of the list
  without it. Neither raises an error.
\<close>

theorem unparsable_event_skipped:
  "(parseDate h (date event @ ''T00:00:00'') = None \<longrightarrow>
      expandRecurringEvents h [event] viewStart viewEnd = Some []
      \<and> expandRecurringEvents h (before @ event # after) viewStart viewEnd
          = expandRecurringEvents h (before @ after) viewStart viewEnd)
   \<and> (parseDate h (date event @ ''T'' @ startTime event) = None \<longrightarrow>
        checkEvent h now event = []
        \<and> checkScan h now (before @ event # after) = checkScan h now (before @ after))"
proof -
  {
    assume p: "parseDate h (date event @ ''T00:00:00'') = None"
    note skip = expandEvents_invalid [OF p]
    have "expandRecurringEvents h [event] viewStart viewEnd = Some []"
      unfolding expandRecurringEvents_def skip by simp
    moreover have "expandRecurringEvents h (before @ event # after) viewStart viewEnd
          = expandRecurringEvents h (before @ after) viewStart viewEnd"
      unfolding expandRecurringEvents_def expandEvents_append skip by simp
    ultimately have "expandRecurringEvents h [event] viewStart viewEnd = Some []
      \<and> expandRecurringEvents h (before @ event # after) viewStart viewEnd
          = expandRecurringEvents h (before @ after) viewStart viewEnd" by simp
  }
  moreover
  {
    assume p: "parseDate h (date event @ ''T'' @ startTime event) = None"
    then have c: "checkEvent h now event = []"
      by (simp add: checkEvent_def split: option.splits)
    then have "checkEvent h now event = []
        \<and> checkScan h now (before @ event # after) = checkScan h now (before @ after)"
      by (simp add: checkScan_def)
  }
  ultimately show ?thesis by blast
qed

lemma parse_badDate:
  "parseDate utcHost (date badDateEvent @ ''T00:00:00'') = None"
  "parseDate utcHost (date badDateEvent @ ''T'' @ startTime badDateEvent) = None"
  by (simp_all add: badDateEvent_def exampleEvent_def date_defs utcHost_def)

theorem unparsable_event_skipped_witness:
  "parseDate utcHost (date badDateEvent @ ''T00:00:00'') = None
   \<and> parseDate utcHost (date badDateEvent @ ''T'' @ startTime badDateEvent) = None
   \<and> expandRecurringEvents utcHost [badDateEvent] (Some 1704067200000) (Some 1714521599999)
       = Some []
   \<and> expandRecurringEvents utcHost ([exampleEvent] @ badDateEvent # [allDayEvent])
        (Some 1704067200000) (Some 1714521599999)
       = expandRecurringEvents utcHost ([exampleEvent] @ [allDayEvent])
           (Some 1704067200000) (Some 1714521599999)
   \<and> checkEvent utcHost 1706690700000 badDateEvent = []
   \<and> checkScan utcHost 1706690700000 ([exampleEvent] @ badDateEvent # [allDayEvent])
       = checkScan utcHost 1706690700000 ([exampleEvent] @ [allDayEvent])"
  using unparsable_event_skipped
          [where event = badDateEvent and viewStart = "Some 1704067200000"
             and viewEnd = "Some 1714521599999" and before = "[exampleEvent]"
             and after = "[allDayEvent]" and now = 1706690700000 and h = utcHost]
        parse_badDate
  by simp

subsection \<open>Dates and start times of other shapes that the format admits\<close>

text \<open>
  A date of a year and a month, or of a year alone, a start time with seconds and
  milliseconds or with an offset, and an expanded year are all of the format. Such events
  are read, not skipped.
\<close>

lemma parse_shapes:
  "parseDate utcHost ''2024-01T00:00:00'' = Some 1704067200000"
  "parseDate utcHost ''2024T00:00:00'' = Some 1704067200000"
  "parseDate utcHost ''+002024-01-31T09:00'' = Some 1706691600000"
  "parseDate utcHost ''2024-01-31T09:00:00.000'' = Some 1706691600000"
  "parseDate newYorkHost ''2024-01-31T09:00:00'' = Some 1706709600000"
  "parseDate newYorkHost ''2024-01-31T09:00:00Z'' = Some 1706691600000"
  "parseDate newYorkHost ''2024-01-31T09:00:00+01:00'' = Some 1706688000000"
  by (simp_all add: date_defs utcHost_def newYorkHost_def)

lemma checkEvent_milliseconds:
  "checkEvent utcHost 1706690700000 (exampleEvent\<lparr> startTime := ''09:00:00.000'' \<rparr>)
     = [alertNotification (exampleEvent\<lparr> startTime := ''09:00:00.000'' \<rparr>) exampleAlert]"
  by (simp add: checkEvent_def exampleEvent_def parse_shapes checkAlert_def
      notificationTime_example)

subsection \<open>The monthly rule from 31 January 2024\<close>





lemmas show_defs =
  toYYYYMMDD_def showInt_def padStart2_def showNat.simps digitChar_def decimalDigits_def








subsection \<open>An anchor of a year and a month\<close>

text \<open>The monthly event dated \<^verbatim>\<open>2024-01\<close> is read as anchored on 1 January and has
  an occurrence on the first of each month of the window.\<close>

lemma advance_firsts:
  "advanceCursor utcHost monthlyRule 1704067200000 = Some 1706745600000"
  "advanceCursor utcHost monthlyRule 1706745600000 = Some 1709251200000"
  "advanceCursor utcHost monthlyRule 1709251200000 = Some 1711929600000"
  "advanceCursor utcHost monthlyRule 1711929600000 = Some 1714521600000"
  by (simp_all add: monthlyRule_def advanceCursor_def utc_set utc_get field_defs calc_defs)

lemma date_firsts:
  "toYYYYMMDD utcHost 1704067200000 = ''2024-01-01''"
  "toYYYYMMDD utcHost 1706745600000 = ''2024-02-01''"
  "toYYYYMMDD utcHost 1709251200000 = ''2024-03-01''"
  "toYYYYMMDD utcHost 1711929600000 = ''2024-04-01''"
  by (simp_all add: show_defs utc_get field_defs day_defs)

lemma month_only_anchor:
  "map_option (map date)
     (expandRecurringEvents utcHost
        [exampleEvent\<lparr> date := ''2024-01'', repeat := Some monthlyRule \<rparr>]
        (Some 1704067200000) (Some 1714521599999))
     = Some [''2024-01-01'', ''2024-02-01'', ''2024-03-01'', ''2024-04-01'']"
proof -
  let ?e = "exampleEvent\<lparr> date := ''2024-01'', repeat := Some monthlyRule \<rparr>"
  let ?loop = "expandLoop utcHost ?e monthlyRule (Some 1704067200000) (Some 1714521599999)"
  have stop: "?loop (Some 1714521600000) occs = Some occs" for occs
    by (subst expandLoop.simps) (simp add: date_le_def)
  have apr: "?loop (Some 1711929600000) occs
               = Some (occs @ [occurrence utcHost ?e 1711929600000])" for occs
    by (subst expandLoop.simps) (simp add: date_le_def date_ge_def advance_firsts stop)
  have mar: "?loop (Some 1709251200000) occs
               = Some (occs @ [occurrence utcHost ?e 1709251200000,
                               occurrence utcHost ?e 1711929600000])" for occs
    by (subst expandLoop.simps) (simp add: date_le_def date_ge_def advance_firsts apr)
  have feb: "?loop (Some 1706745600000) occs
               = Some (occs @ [occurrence utcHost ?e 1706745600000,
                               occurrence utcHost ?e 1709251200000,
                               occurrence utcHost ?e 1711929600000])" for occs
    by (subst expandLoop.simps) (simp add: date_le_def date_ge_def advance_firsts mar)
  have jan: "?loop (Some 1704067200000) occs
               = Some (occs @ [occurrence utcHost ?e 1704067200000,
                               occurrence utcHost ?e 1706745600000,
                               occurrence utcHost ?e 1709251200000,
                               occurrence utcHost ?e 1711929600000])" for occs
    by (subst expandLoop.simps) (simp add: date_le_def date_ge_def advance_firsts feb)
  have "expandRecurringEvents utcHost [?e] (Some 1704067200000) (Some 1714521599999)
          = Some [occurrence utcHost ?e 1704067200000, occurrence utcHost ?e 1706745600000,
                  occurrence utcHost ?e 1709251200000, occurrence utcHost ?e 1711929600000]"
    using jan [of "[]"] by (simp add: expandRecurringEvents_def parse_shapes(1))
  then show ?thesis
    by (simp add: occurrence_def date_firsts)
qed

section \<open>The loop of the expander ends\<close>











section \<open>Every occurrence lies in the window\<close>












section \<open>A daily event over a window of whole days\<close>







end
